theory Spec2Isabelle
  imports Main
begin

section \<open>Exceptions\<close>

text \<open>
  The module \<^verbatim>\<open>apache/aurora/client/cli/context.py\<close> imports the exit classifications
  \<^verbatim>\<open>EXIT_NETWORK_ERROR\<close> and \<^verbatim>\<open>EXIT_INVALID_PARAMETER\<close> (the first one twice) from
  \<^verbatim>\<open>apache.aurora.client.cli\<close>. Their numeric values are not part of the module; they are
  kept as the two names the module binds.
\<close>

datatype exit_code = EXIT_NETWORK_ERROR | EXIT_INVALID_PARAMETER

text \<open>
  Every way a call of the module can raise. \<open>CommandError\<close> is \<^verbatim>\<open>Context.CommandError\<close>
  with its exit classification and message. \<open>NameError\<close> carries the name that is not
  bound, \<open>KeyError\<close> the key a dictionary lacks, \<open>TypeError\<close> is the failed membership
  test on \<^verbatim>\<open>None\<close>, \<open>re_error\<close> is the error of the regular-expression compiler
  that \<^verbatim>\<open>fnmatch\<close> calls, and \<open>Raised\<close> is whatever an external collaborator
  (client construction, an RPC) raises.
\<close>

datatype exn =
    CommandError exit_code string
  | NameError string
  | KeyError int
  | TypeError
  | re_error
  | Raised string

section \<open>Partial job keys\<close>

text \<open>
  \<^verbatim>\<open>PartialJobKey = namedtuple('PartialJobKey', ['cluster', 'role', 'env', 'name'])\<close>.
  The field \<^verbatim>\<open>key.role\<close> is written \<open>pk_role key\<close>, and so on, so that \<open>cluster\<close>, \<open>role\<close>,
  \<open>env\<close> and \<open>name\<close> stay free for the parameters of the same names.
\<close>

datatype PartialJobKey =
  PartialJobKey (pk_cluster: string) (pk_role: string) (pk_env: string) (pk_name: string)

text \<open>The four fields in their declared order.\<close>

definition pk_fields :: "PartialJobKey \<Rightarrow> string list" where
  "pk_fields key =
     [pk_cluster key, pk_role key, pk_env key, pk_name key]"

text \<open>
  Python's \<^verbatim>\<open>str.split(sep)\<close> for a one-character separator: the segments between the
  separators, empty ones included; the empty string gives one empty segment.
\<close>

fun str_split :: "char \<Rightarrow> string \<Rightarrow> string list" where
  "str_split sep [] = [[]]"
| "str_split sep (c # cs) =
     (if c = sep then [] # str_split sep cs
      else (case str_split sep cs of
              [] \<Rightarrow> [[c]]
            | w # ws \<Rightarrow> (c # w) # ws))"

text \<open>Python's \<^verbatim>\<open>sep.join(parts)\<close>.\<close>

fun str_join :: "char \<Rightarrow> string list \<Rightarrow> string" where
  "str_join sep [] = []"
| "str_join sep [w] = w"
| "str_join sep (w # v # ws) = w @ sep # str_join sep (v # ws)"

text \<open>
  The loop \<^verbatim>\<open>while len(parts) < 4: parts.append('*')\<close> of \<^verbatim>\<open>parse_partial_jobkey\<close>.
\<close>

function pad_parts :: "string list \<Rightarrow> string list" where
  "pad_parts parts = (if length parts < 4 then pad_parts (parts @ [''*'']) else parts)"
  by pat_completeness auto
termination
  by (relation "measure (\<lambda>parts. 4 - length parts)") auto

declare pad_parts.simps [simp del]

text \<open>
  \<^verbatim>\<open>parse_partial_jobkey(cls, key)\<close>. The first loop copies the segments of
  \<^verbatim>\<open>key.split('/')\<close> into \<open>parts\<close>. \<^verbatim>\<open>PartialJobKey(*parts)\<close> needs exactly four
  arguments; any other number is the \<^verbatim>\<open>TypeError\<close> of the namedtuple constructor.
\<close>

definition parse_partial_jobkey :: "string \<Rightarrow> exn + PartialJobKey" where
  "parse_partial_jobkey key =
     (let parts = str_split CHR ''/'' key in
      if length parts > 4
      then Inl (CommandError EXIT_INVALID_PARAMETER ''Job key must have no more than 4 segments'')
      else (case pad_parts parts of
              [c, r, e, n] \<Rightarrow> Inr (PartialJobKey c r e n)
            | _ \<Rightarrow> Inl TypeError))"

section \<open>Job keys and scheduler responses\<close>

text \<open>
  Modelled from the spec: the class \<^verbatim>\<open>AuroraJobKey\<close> of
  \<^verbatim>\<open>apache.aurora.common.aurora_job_key\<close> is not among the sources. The spec (section 3)
  gives a job key four string fields: cluster, role, environment, name. The constructor
  \<^verbatim>\<open>AuroraJobKey(cluster, role, env, name)\<close> stores its four arguments, and \<open>jk_role job\<close>
  is the attribute \<^verbatim>\<open>job.role\<close> that \<^verbatim>\<open>filter_job_list\<close> reads, and so on.
  The same sentence of the spec gives job keys an invariant (no field is empty or holds
  a wildcard character). Whether the constructor enforces it, and how, is not in the
  sources: the constructor is taken to store any four strings, and nothing below is
  proved or refuted about that invariant.
\<close>

datatype AuroraJobKey =
  AuroraJobKey (jk_cluster: string) (jk_role: string) (jk_env: string) (jk_name: string)

text \<open>
  One element \<^verbatim>\<open>job\<close> of \<^verbatim>\<open>resp.result.getJobsResult.configs\<close>, of which
  \<^verbatim>\<open>get_job_list\<close> reads \<^verbatim>\<open>job.key.role\<close>, \<^verbatim>\<open>job.key.environment\<close> and
  \<^verbatim>\<open>job.key.name\<close>.
\<close>

datatype JobConfiguration =
  JobConfiguration (key_role: string) (key_environment: string) (key_name: string)

text \<open>
  The response envelope of a scheduler call: \<^verbatim>\<open>resp.responseCode\<close>, \<^verbatim>\<open>resp.message\<close> and
  the payload \<^verbatim>\<open>resp.result\<close>. For \<^verbatim>\<open>get_jobs\<close> the payload is the list
  \<^verbatim>\<open>resp.result.getJobsResult.configs\<close> in its iteration order.
  The message is taken to be a string.
\<close>

record 'p Response =
  responseCode :: int
  message :: string
  result :: 'p

text \<open>
  The generated class \<^verbatim>\<open>gen.apache.aurora.ttypes.ResponseCode\<close> is not among the sources.
  The module reads two things of it, which are parameters here: the value
  \<^verbatim>\<open>ResponseCode.OK\<close> and the dictionary \<^verbatim>\<open>ResponseCode._VALUES_TO_NAMES\<close>.
\<close>

record ResponseCode_enum =
  OK :: int
  VALUES_TO_NAMES :: "int \<rightharpoonup> string"

section \<open>The outside of the command context\<close>

text \<open>
  What a session does to the outside, oldest first: a call \<^verbatim>\<open>make_client(cluster)\<close> with
  its outcome, a call \<^verbatim>\<open>api.get_jobs(role)\<close> on a handle with its outcome, and a record
  written with \<^verbatim>\<open>log.info\<close>. A handle \<open>'h\<close> stands for the client instance: two handles
  are equal when they are the same instance.
\<close>

datatype 'h event =
    MakeClient string "exn + 'h"
  | GetJobs 'h "string option" "exn + JobConfiguration list Response"
  | LogInfo string

text \<open>
  The collaborators that are not among the sources, as parameters: the response codes,
  the cluster names that iterating over \<^verbatim>\<open>CLUSTERS\<close> yields,
  \<^verbatim>\<open>make_client\<close> and the \<^verbatim>\<open>get_jobs\<close> method of a client. The last two may raise,
  and may answer differently from one call to the next: each sees what the session has
  done so far.
\<close>

record 'h externals =
  ResponseCode :: ResponseCode_enum
  CLUSTERS :: "string list"
  make_client :: "string \<Rightarrow> 'h event list \<Rightarrow> exn + 'h"
  get_jobs :: "'h \<Rightarrow> string option \<Rightarrow> 'h event list \<Rightarrow> exn + JobConfiguration list Response"

section \<open>The command context\<close>

text \<open>
  \<^verbatim>\<open>AuroraCommandContext\<close>: the dictionary \<^verbatim>\<open>self.apis\<close>, and the events of the session
  so far.
\<close>

record 'h AuroraCommandContext =
  apis :: "string \<rightharpoonup> 'h"
  history :: "'h event list"

text \<open>\<^verbatim>\<open>__init__\<close>: \<^verbatim>\<open>self.apis = {}\<close>.\<close>

definition AuroraCommandContext_init :: "'h AuroraCommandContext" where
  "AuroraCommandContext_init = \<lparr>apis = Map.empty, history = []\<rparr>"

text \<open>\<^verbatim>\<open>get_api(self, cluster)\<close>\<close>

definition get_api ::
  "'h externals \<Rightarrow> string \<Rightarrow> 'h AuroraCommandContext \<Rightarrow> (exn + 'h) \<times> 'h AuroraCommandContext"
where
  "get_api ext cluster self =
     (case apis self cluster of
        None \<Rightarrow>
          (let r = make_client ext cluster (history self);
               self' = self\<lparr>history := history self @ [MakeClient cluster r]\<rparr>
           in case r of
                Inl e \<Rightarrow> (Inl e, self')
              | Inr api \<Rightarrow> (Inr api, self'\<lparr>apis := (apis self')(cluster \<mapsto> api)\<rparr>))
      | Some api \<Rightarrow> (Inr api, self))"

text \<open>
  \<^verbatim>\<open>check_and_log_response(self, resp)\<close>. The argument of \<^verbatim>\<open>log.info\<close> is built first,
  so a response code without a name is a \<^verbatim>\<open>KeyError\<close> before anything is logged.
  The function has no \<^verbatim>\<open>return\<close> statement: when it does not raise it returns
  \<^verbatim>\<open>None\<close>, which is \<open>None\<close> here, and \<open>Some p\<close> would be a returned payload \<open>p\<close>.
\<close>

definition check_and_log_response ::
  "'h externals \<Rightarrow> 'p Response \<Rightarrow> 'h AuroraCommandContext
     \<Rightarrow> (exn + 'p option) \<times> 'h AuroraCommandContext"
where
  "check_and_log_response ext resp self =
     (case VALUES_TO_NAMES (ResponseCode ext) (responseCode resp) of
        None \<Rightarrow> (Inl (KeyError (responseCode resp)), self)
      | Some code_name \<Rightarrow>
          (let self' = self\<lparr>history := history self @
                 [LogInfo (''Response from scheduler: '' @ code_name @
                           '' (message: '' @ message resp @ '')'')]\<rparr>
           in if responseCode resp \<noteq> OK (ResponseCode ext)
              then (Inl (CommandError EXIT_NETWORK_ERROR (message resp)), self')
              else (Inr None, self')))"

text \<open>
  The loop \<^verbatim>\<open>for cluster in clusters\<close> of \<^verbatim>\<open>get_job_list\<close>; \<open>acc\<close> is the list
  \<^verbatim>\<open>result\<close> built so far. The test \<^verbatim>\<open>resp.responseCode is not ResponseCode.OK\<close> compares
  two small integers, for which identity is equality. In the \<^verbatim>\<open>raise\<close> statement the
  name \<^verbatim>\<open>EXIT_COMMAND_FAILURE\<close> is evaluated before \<^verbatim>\<open>CommandError\<close> is called; the module
  neither imports nor defines that name, so the evaluation raises \<^verbatim>\<open>NameError\<close>.
\<close>

fun get_job_list_loop ::
  "'h externals \<Rightarrow> string list \<Rightarrow> string option \<Rightarrow> AuroraJobKey list \<Rightarrow> 'h AuroraCommandContext
     \<Rightarrow> (exn + AuroraJobKey list) \<times> 'h AuroraCommandContext"
where
  "get_job_list_loop ext [] role acc self = (Inr acc, self)"
| "get_job_list_loop ext (cluster # clusters) role acc self =
     (case get_api ext cluster self of
        (Inl e, self1) \<Rightarrow> (Inl e, self1)
      | (Inr api, self1) \<Rightarrow>
          (let r = get_jobs ext api role (history self1);
               self2 = self1\<lparr>history := history self1 @ [GetJobs api role r]\<rparr>
           in case r of
                Inl e \<Rightarrow> (Inl e, self2)
              | Inr resp \<Rightarrow>
                  if responseCode resp \<noteq> OK (ResponseCode ext)
                  then (Inl (NameError ''EXIT_COMMAND_FAILURE''), self2)
                  else get_job_list_loop ext clusters role
                         (acc @ map (\<lambda>job. AuroraJobKey cluster (key_role job)
                                              (key_environment job) (key_name job))
                                    (result resp))
                         self2))"

text \<open>
  \<^verbatim>\<open>get_job_list(self, clusters, role=None)\<close>. The role is \<open>None\<close> for \<^verbatim>\<open>None\<close>;
  \<^verbatim>\<open>'*' in role\<close> on \<^verbatim>\<open>None\<close> raises \<^verbatim>\<open>TypeError\<close>, and on a string it holds when the
  string contains the character.
\<close>

definition get_job_list ::
  "'h externals \<Rightarrow> string list \<Rightarrow> string option \<Rightarrow> 'h AuroraCommandContext
     \<Rightarrow> (exn + AuroraJobKey list) \<times> 'h AuroraCommandContext"
where
  "get_job_list ext clusters role self =
     (case role of
        None \<Rightarrow> (Inl TypeError, self)
      | Some r \<Rightarrow>
          get_job_list_loop ext clusters (if CHR ''*'' \<in> set r then None else Some r) [] self)"

section \<open>Shell-style matching\<close>

text \<open>
  \<^verbatim>\<open>fnmatch.fnmatch(name, pat)\<close> of the Python 2 standard library, on a POSIX system
  (where \<^verbatim>\<open>os.path.normcase\<close> changes nothing): \<^verbatim>\<open>translate(pat)\<close> turns the pattern
  into a regular expression, which is compiled and matched against the whole name.
  The regular expression is kept as a list of tokens: \<open>Star\<close> for \<^verbatim>\<open>.*\<close>, \<open>AnyChar\<close>
  for \<^verbatim>\<open>.\<close> (which matches a newline too, under the flag \<^verbatim>\<open>s\<close>), \<open>Lit c\<close> for the
  escaped character, and \<open>CharSet negate items\<close> for a bracket expression.
\<close>

datatype set_item = Literal char | CharRange char char

datatype tok = Star | AnyChar | Lit char | CharSet bool "set_item list"

text \<open>
  The scan for the closing bracket in \<^verbatim>\<open>translate\<close>, started right after a \<open>[\<close>:
  skip a \<open>!\<close>, skip a \<open>]\<close> that comes first, then run to the next \<open>]\<close>. The result is
  \<^verbatim>\<open>stuff\<close> and the pattern after the closing bracket, or \<open>None\<close> when no bracket closes.
\<close>

definition find_close :: "string \<Rightarrow> (string \<times> string) option" where
  "find_close rest =
     (let (neg, r1) = (case rest of
                         [] \<Rightarrow> ([], rest)
                       | c # cs \<Rightarrow> if c = CHR ''!'' then ([c], cs) else ([], rest));
          (first, r2) = (case r1 of
                           [] \<Rightarrow> ([], r1)
                         | c # cs \<Rightarrow> if c = CHR '']'' then ([c], cs) else ([], r1))
      in case dropWhile (\<lambda>c. c \<noteq> CHR '']'') r2 of
           [] \<Rightarrow> None
         | _ # rest' \<Rightarrow> Some (neg @ first @ takeWhile (\<lambda>c. c \<noteq> CHR '']'') r2, rest'))"

text \<open>
  The items of a bracket expression as the regular-expression compiler reads them:
  \<open>c-d\<close> is a range, and a range whose upper end is below its lower end is an error of
  the compiler; a \<open>-\<close> right before the closing bracket is a literal. Every backslash
  of \<^verbatim>\<open>stuff\<close> is doubled by \<^verbatim>\<open>translate\<close> and so read as a literal backslash.
\<close>

fun parse_set :: "string \<Rightarrow> exn + set_item list" where
  "parse_set [] = Inr []"
| "parse_set (c # cs) =
     (if cs \<noteq> [] \<and> hd cs = CHR ''-'' \<and> tl cs \<noteq> []
      then (let d = hd (tl cs) in
            if (of_char d :: nat) < of_char c then Inl re_error
            else (case parse_set (tl (tl cs)) of
                    Inl e \<Rightarrow> Inl e
                  | Inr items \<Rightarrow> Inr (CharRange c d # items)))
      else (case parse_set cs of
              Inl e \<Rightarrow> Inl e
            | Inr items \<Rightarrow> Inr (Literal c # items)))"

text \<open>
  \<^verbatim>\<open>stuff\<close> as a set: a leading \<open>!\<close> negates; a leading \<open>^\<close> is escaped by
  \<^verbatim>\<open>translate\<close> and so a literal. \<^verbatim>\<open>stuff\<close> is never empty (see \<open>find_close\<close>).
\<close>

definition char_set :: "string \<Rightarrow> exn + tok" where
  "char_set stuff =
     (let negate = (stuff \<noteq> [] \<and> hd stuff = CHR ''!'')
      in case parse_set (if negate then tl stuff else stuff) of
           Inl e \<Rightarrow> Inl e
         | Inr items \<Rightarrow> Inr (CharSet negate items))"

definition cons_tok :: "tok \<Rightarrow> exn + tok list \<Rightarrow> exn + tok list" where
  "cons_tok t r = (case r of Inl e \<Rightarrow> Inl e | Inr ts \<Rightarrow> Inr (t # ts))"

text \<open>
  \<^verbatim>\<open>fnmatch.translate(pat)\<close> followed by the compilation of its result, which is where
  a bad range raises.
\<close>

function translate :: "string \<Rightarrow> exn + tok list" where
  "translate [] = Inr []"
| "translate (c # rest) =
     (if c = CHR ''*'' then cons_tok Star (translate rest)
      else if c = CHR ''?'' then cons_tok AnyChar (translate rest)
      else if c = CHR ''['' then
        (case find_close rest of
           None \<Rightarrow> cons_tok (Lit c) (translate rest)
         | Some (stuff, rest') \<Rightarrow>
             (case char_set stuff of
                Inl e \<Rightarrow> Inl e
              | Inr t \<Rightarrow> cons_tok t (translate rest')))
      else cons_tok (Lit c) (translate rest))"
  by pat_completeness auto
termination
proof (relation "measure length")
  fix c rest x2 stuff rest'
  assume "find_close rest = Some x2" and "(stuff, rest') = x2"
  then have fc: "find_close rest = Some (stuff, rest')" by simp
  have dw: "length rest' < length r2"
    if "dropWhile (\<lambda>c. c \<noteq> CHR '']'') r2 = x # rest'" for r2 x
  proof -
    have "length (dropWhile (\<lambda>c. c \<noteq> CHR '']'') r2) \<le> length r2"
      by (rule length_dropWhile_le)
    with that show ?thesis by simp
  qed
  from fc have "length rest' < length rest"
    by (fastforce simp: find_close_def Let_def split: list.splits if_splits dest: dw)
  then show "(rest', c # rest) \<in> measure length" by simp
qed auto

fun in_item :: "char \<Rightarrow> set_item \<Rightarrow> bool" where
  "in_item x (Literal c) = (x = c)"
| "in_item x (CharRange lo hi) = ((of_char lo :: nat) \<le> of_char x \<and> (of_char x :: nat) \<le> of_char hi)"

text \<open>The match of the whole string against the compiled pattern.\<close>

fun match :: "tok list \<Rightarrow> string \<Rightarrow> bool" where
  "match [] s = (s = [])"
| "match (Star # ts) [] = match ts []"
| "match (Star # ts) (x # s) = (match ts (x # s) \<or> match (Star # ts) s)"
| "match (AnyChar # ts) [] = False"
| "match (AnyChar # ts) (x # s) = match ts s"
| "match (Lit c # ts) [] = False"
| "match (Lit c # ts) (x # s) = (x = c \<and> match ts s)"
| "match (CharSet negate items # ts) [] = False"
| "match (CharSet negate items # ts) (x # s) =
     ((list_ex (in_item x) items \<noteq> negate) \<and> match ts s)"

definition fnmatch :: "string \<Rightarrow> string \<Rightarrow> exn + bool" where
  "fnmatch name pat =
     (case translate pat of Inl e \<Rightarrow> Inl e | Inr ts \<Rightarrow> Inr (match ts name))"

section \<open>Resolving a partial key\<close>

text \<open>
  \<^verbatim>\<open>is_fully_bound(key)\<close>:
  \<^verbatim>\<open>not any('*' in component for component in [key.cluster, key.role, key.env, key.name])\<close>
\<close>

definition is_fully_bound :: "PartialJobKey \<Rightarrow> bool" where
  "is_fully_bound key =
     (\<not> list_ex (\<lambda>component. CHR ''*'' \<in> set component)
          [pk_cluster key, pk_role key, pk_env key, pk_name key])"

text \<open>
  The condition of the list comprehension of \<^verbatim>\<open>filter_job_list\<close>:
  \<^verbatim>\<open>fnmatch(job.role, role) and fnmatch(job.env, env) and fnmatch(job.name, name)\<close>,
  where \<^verbatim>\<open>and\<close> does not evaluate its right side when the left one is false.
\<close>

definition job_matches :: "AuroraJobKey \<Rightarrow> string \<Rightarrow> string \<Rightarrow> string \<Rightarrow> exn + bool" where
  "job_matches job role env name =
     (case fnmatch (jk_role job) role of
        Inl e \<Rightarrow> Inl e
      | Inr b1 \<Rightarrow>
          if \<not> b1 then Inr False
          else (case fnmatch (jk_env job) env of
                  Inl e \<Rightarrow> Inl e
                | Inr b2 \<Rightarrow> if \<not> b2 then Inr False else fnmatch (jk_name job) name))"

text \<open>\<^verbatim>\<open>filter_job_list(jobs, role, env, name)\<close>\<close>

fun filter_job_list ::
  "AuroraJobKey list \<Rightarrow> string \<Rightarrow> string \<Rightarrow> string \<Rightarrow> exn + AuroraJobKey list"
where
  "filter_job_list [] role env name = Inr []"
| "filter_job_list (job # jobs) role env name =
     (case job_matches job role env name of
        Inl e \<Rightarrow> Inl e
      | Inr keep \<Rightarrow>
          (case filter_job_list jobs role env name of
             Inl e \<Rightarrow> Inl e
           | Inr kept \<Rightarrow> Inr (if keep then job # kept else kept)))"

text \<open>\<^verbatim>\<open>get_jobs_matching_key(self, key)\<close>\<close>

definition get_jobs_matching_key ::
  "'h externals \<Rightarrow> PartialJobKey \<Rightarrow> 'h AuroraCommandContext
     \<Rightarrow> (exn + AuroraJobKey list) \<times> 'h AuroraCommandContext"
where
  "get_jobs_matching_key ext key self =
     (let clusters_to_search =
            (if pk_cluster key = ''*'' then CLUSTERS ext else [pk_cluster key])
      in if is_fully_bound key
         then (Inr [AuroraJobKey (pk_cluster key) (pk_role key) (pk_env key) (pk_name key)],
               self)
         else (case get_job_list ext clusters_to_search (Some (pk_role key)) self of
                 (Inl e, self') \<Rightarrow> (Inl e, self')
               | (Inr jobs, self') \<Rightarrow>
                   (filter_job_list jobs (pk_role key) (pk_env key) (pk_name key), self')))"

section \<open>Notions used to state the properties\<close>

text \<open>
  A wildcard in the sense of the specification: the character \<open>*\<close> (any substring) or
  \<open>?\<close> (any single character).
\<close>

definition has_wildcard :: "string \<Rightarrow> bool" where
  "has_wildcard s = (CHR ''*'' \<in> set s \<or> CHR ''?'' \<in> set s)"

text \<open>
  Shell-glob matching of a name against a pattern without bracket expressions, as the
  specification words it: \<open>*\<close> matches any substring, \<open>?\<close> matches any single
  character, and any other character matches itself.
\<close>

inductive glob :: "string \<Rightarrow> string \<Rightarrow> bool" where
  glob_Nil: "glob [] []"
| glob_Star: "glob pat s2 \<Longrightarrow> glob (CHR ''*'' # pat) (s1 @ s2)"
| glob_Any: "glob pat s \<Longrightarrow> glob (CHR ''?'' # pat) (x # s)"
| glob_Lit: "c \<noteq> CHR ''*'' \<Longrightarrow> c \<noteq> CHR ''?'' \<Longrightarrow> glob pat s \<Longrightarrow> glob (c # pat) (c # s)"

text \<open>The token of a pattern character outside a bracket expression.\<close>

definition tok_of :: "char \<Rightarrow> tok" where
  "tok_of c = (if c = CHR ''*'' then Star else if c = CHR ''?'' then AnyChar else Lit c)"

text \<open>The four fields of a job key joined with \<open>/\<close>.\<close>

definition key_path :: "AuroraJobKey \<Rightarrow> string" where
  "key_path job = str_join CHR ''/'' [jk_cluster job, jk_role job, jk_env job, jk_name job]"

text \<open>The number of calls \<^verbatim>\<open>make_client(cluster)\<close> among the events.\<close>

fun is_MakeClient :: "string \<Rightarrow> 'h event \<Rightarrow> bool" where
  "is_MakeClient cluster (MakeClient c r) = (c = cluster)"
| "is_MakeClient cluster (GetJobs api role r) = False"
| "is_MakeClient cluster (LogInfo line) = False"

definition constructions :: "string \<Rightarrow> 'h event list \<Rightarrow> nat" where
  "constructions cluster hist = length (filter (is_MakeClient cluster) hist)"

text \<open>The calls of \<^verbatim>\<open>get_jobs\<close> among the events: handle, role argument and outcome.\<close>

fun get_jobs_calls ::
  "'h event list \<Rightarrow> ('h \<times> string option \<times> (exn + JobConfiguration list Response)) list"
where
  "get_jobs_calls [] = []"
| "get_jobs_calls (GetJobs api role r # hist) = (api, role, r) # get_jobs_calls hist"
| "get_jobs_calls (MakeClient c r # hist) = get_jobs_calls hist"
| "get_jobs_calls (LogInfo line # hist) = get_jobs_calls hist"

text \<open>
  A session that calls \<^verbatim>\<open>get_api\<close> for each of the given cluster names in turn, going on
  after a call that raised: the outcomes of the calls and the context at the end.
\<close>

fun get_apis ::
  "'h externals \<Rightarrow> string list \<Rightarrow> 'h AuroraCommandContext
     \<Rightarrow> (exn + 'h) list \<times> 'h AuroraCommandContext"
where
  "get_apis ext [] self = ([], self)"
| "get_apis ext (cluster # clusters) self =
     (case get_api ext cluster self of
        (r, self1) \<Rightarrow>
          (case get_apis ext clusters self1 of
             (rs, self2) \<Rightarrow> (r # rs, self2)))"

text \<open>The job keys that a list of clusters and their listings give, in listing order.\<close>

definition listed_jobs ::
  "string list \<Rightarrow> JobConfiguration list Response list \<Rightarrow> AuroraJobKey list" where
  "listed_jobs clusters resps =
     concat (map (\<lambda>(cluster, resp).
                    map (\<lambda>job. AuroraJobKey cluster (key_role job) (key_environment job)
                                  (key_name job))
                        (result resp))
                 (zip clusters resps))"

section \<open>An example of the outside\<close>

text \<open>
  Response codes with \<open>OK = 1\<close>. Two clusters \<open>A\<close> and \<open>B\<close> in the registry, whose
  schedulers list their jobs (of the given role only, when one is given); a cluster
  \<open>down\<close> whose scheduler answers with an error; a cluster \<open>flaky\<close> for which the first
  construction of a client fails and the next one succeeds. The handle of a cluster is
  its name.
\<close>

definition example_ResponseCode :: ResponseCode_enum where
  "example_ResponseCode =
     \<lparr>OK = 1, VALUES_TO_NAMES = [0 \<mapsto> ''INVALID_REQUEST'', 1 \<mapsto> ''OK'', 2 \<mapsto> ''ERROR'']\<rparr>"

definition example_listing :: "string \<Rightarrow> JobConfiguration list" where
  "example_listing api =
     (if api = ''A'' then [JobConfiguration ''web'' ''prod'' ''frontend'',
                           JobConfiguration ''web'' ''staging'' ''frontend'']
      else if api = ''B'' then [JobConfiguration ''db'' ''prod'' ''store'']
      else [])"

definition example_externals :: "string externals" where
  "example_externals =
     \<lparr>ResponseCode = example_ResponseCode,
      CLUSTERS = [''A'', ''B''],
      make_client = (\<lambda>cluster hist.
        if cluster = ''flaky'' \<and> constructions ''flaky'' hist = 0
        then Inl (Raised ''connection refused'')
        else Inr cluster),
      get_jobs = (\<lambda>api role hist.
        if api = ''down''
        then Inr \<lparr>responseCode = 2, message = ''scheduler unavailable'', result = []\<rparr>
        else Inr \<lparr>responseCode = 1, message = ''ok'',
                  result = (case role of
                              None \<Rightarrow> example_listing api
                            | Some r \<Rightarrow> filter (\<lambda>job. key_role job = r) (example_listing api))\<rparr>)\<rparr>"

section \<open>Properties of the parser\<close>

lemma str_split_not_Nil: "str_split sep s \<noteq> []"
  by (induction s) (auto split: list.splits)

lemma str_split_length_pos: "0 < length (str_split sep s)"
  using str_split_not_Nil [of sep s] by simp

lemma str_join_Cons: "ws \<noteq> [] \<Longrightarrow> str_join sep (w # ws) = w @ sep # str_join sep ws"
  by (cases ws) simp_all

lemma str_join_split: "str_join sep (str_split sep s) = s"
proof (induction s)
  case Nil
  show ?case by simp
next
  case (Cons c cs)
  show ?case
  proof (cases "c = sep")
    case True
    with Cons show ?thesis
      by (simp add: str_join_Cons str_split_not_Nil)
  next
    case False
    obtain w ws where ws: "str_split sep cs = w # ws"
      using str_split_not_Nil [of sep cs] by (cases "str_split sep cs") auto
    have "str_join sep ((c # w) # ws) = c # str_join sep (w # ws)"
      by (cases ws) simp_all
    with Cons False ws show ?thesis by simp
  qed
qed

lemma str_split_no_sep: "w \<in> set (str_split sep s) \<Longrightarrow> sep \<notin> set w"
proof (induction s arbitrary: w)
  case Nil
  then show ?case by simp
next
  case (Cons c cs)
  then show ?case
    by (cases "str_split sep cs") (auto split: if_splits)
qed

lemma str_split_no_sep_id: "sep \<notin> set s \<Longrightarrow> str_split sep s = [s]"
  by (induction s) auto

lemma str_split_append:
  "sep \<notin> set w \<Longrightarrow> str_split sep (w @ sep # s) = w # str_split sep s"
  by (induction w) auto

lemma str_split_join:
  "ws \<noteq> [] \<Longrightarrow> \<forall>w \<in> set ws. sep \<notin> set w \<Longrightarrow> str_split sep (str_join sep ws) = ws"
proof (induction sep ws rule: str_join.induct)
  case (1 sep)
  then show ?case by simp
next
  case (2 sep w)
  then show ?case by (simp add: str_split_no_sep_id)
next
  case (3 sep w v ws)
  then show ?case by (simp add: str_split_append)
qed

lemma pad_parts_4: "length parts = 4 \<Longrightarrow> pad_parts parts = parts"
  by (simp add: pad_parts.simps)

lemma pad_parts_eq:
  "length parts \<le> 4 \<Longrightarrow> pad_parts parts = parts @ replicate (4 - length parts) ''*''"
proof (induction parts rule: pad_parts.induct)
  case (1 parts)
  show ?case
  proof (cases "length parts < 4")
    case True
    then have "pad_parts parts = pad_parts (parts @ [''*''])"
      by (subst pad_parts.simps) simp
    also have "\<dots> = (parts @ [''*'']) @ replicate (4 - length (parts @ [''*''])) ''*''"
      using True by (intro "1.IH") simp_all
    also have "\<dots> = parts @ replicate (Suc (3 - length parts)) ''*''"
      by simp
    also have "Suc (3 - length parts) = 4 - length parts"
      using True by simp
    finally show ?thesis .
  next
    case False
    with "1.prems" show ?thesis by (simp add: pad_parts.simps)
  qed
qed

lemma pad_parts_ge: "4 \<le> length parts \<Longrightarrow> pad_parts parts = parts"
  by (simp add: pad_parts.simps)

lemma length4_cases:
  "length (xs :: 'a list) = 4 \<Longrightarrow> \<exists>a b c d. xs = [a, b, c, d]"
  by (cases xs; cases "tl xs"; cases "tl (tl xs)"; cases "tl (tl (tl xs))") auto

lemma parse_partial_jobkey_ok:
  assumes "length (str_split CHR ''/'' raw) \<le> 4"
  shows "\<exists>p. parse_partial_jobkey raw = Inr p \<and>
             pk_fields p = str_split CHR ''/'' raw
                          @ replicate (4 - length (str_split CHR ''/'' raw)) ''*''"
proof -
  let ?segs = "str_split CHR ''/'' raw"
  let ?padded = "?segs @ replicate (4 - length ?segs) ''*''"
  have pad: "pad_parts ?segs = ?padded"
    using assms by (rule pad_parts_eq)
  have "length ?padded = 4" using assms by simp
  then obtain a b c d where abcd: "?padded = [a, b, c, d]"
    using length4_cases by blast
  have "parse_partial_jobkey raw = Inr (PartialJobKey a b c d)"
    using assms pad abcd by (simp add: parse_partial_jobkey_def Let_def)
  moreover have "pk_fields (PartialJobKey a b c d) = ?padded"
    using abcd by (simp add: pk_fields_def)
  ultimately show ?thesis by blast
qed

lemma parse_partial_jobkey_too_long:
  assumes "4 < length (str_split CHR ''/'' raw)"
  shows "parse_partial_jobkey raw =
           Inl (CommandError EXIT_INVALID_PARAMETER ''Job key must have no more than 4 segments'')"
  using assms by (simp add: parse_partial_jobkey_def Let_def)

text \<open>
  C5. \<^verbatim>\<open>parse_partial_jobkey\<close> succeeds on every input that splits on \<open>/\<close> into at most
  four segments and fails with the invalid-parameter \<open>CommandError\<close> on every input with
  more than four. For an input of \<open>k \<le> 4\<close> segments the first \<open>k\<close> fields of the returned
  pattern are the segments in order and the remaining \<open>4 - k\<close> fields are \<open>*\<close>.
\<close>

theorem parse_partial_jobkey_segments:
  fixes raw :: string
  defines "segs \<equiv> str_split CHR ''/'' raw"
  shows "(length segs \<le> 4 \<longrightarrow>
            (\<exists>p. parse_partial_jobkey raw = Inr p \<and>
                 (\<forall>i < length segs. pk_fields p ! i = segs ! i) \<and>
                 (\<forall>i. length segs \<le> i \<and> i < 4 \<longrightarrow> pk_fields p ! i = ''*''))) \<and>
         (4 < length segs \<longrightarrow>
            parse_partial_jobkey raw =
              Inl (CommandError EXIT_INVALID_PARAMETER
                     ''Job key must have no more than 4 segments''))"
proof (intro conjI impI)
  assume le: "length segs \<le> 4"
  then obtain p where p: "parse_partial_jobkey raw = Inr p"
    and f: "pk_fields p = segs @ replicate (4 - length segs) ''*''"
    using parse_partial_jobkey_ok [of raw] unfolding segs_def by blast
  have "\<forall>i < length segs. pk_fields p ! i = segs ! i"
    by (simp add: f nth_append)
  moreover have "\<forall>i. length segs \<le> i \<and> i < 4 \<longrightarrow> pk_fields p ! i = ''*''"
    using le by (auto simp: f nth_append)
  ultimately show "\<exists>p. parse_partial_jobkey raw = Inr p \<and>
      (\<forall>i < length segs. pk_fields p ! i = segs ! i) \<and>
      (\<forall>i. length segs \<le> i \<and> i < 4 \<longrightarrow> pk_fields p ! i = ''*'')"
    using p by blast
next
  assume "4 < length segs"
  then show "parse_partial_jobkey raw =
      Inl (CommandError EXIT_INVALID_PARAMETER ''Job key must have no more than 4 segments'')"
    unfolding segs_def by (rule parse_partial_jobkey_too_long)
qed

theorem parse_partial_jobkey_segments_witness:
  "parse_partial_jobkey ''west/bozo'' = Inr (PartialJobKey ''west'' ''bozo'' ''*'' ''*'') \<and>
   parse_partial_jobkey ''a/b/c/d/e'' =
     Inl (CommandError EXIT_INVALID_PARAMETER ''Job key must have no more than 4 segments'')"
proof -
  have short: "str_split CHR ''/'' ''west/bozo'' = [''west'', ''bozo'']"
    by simp
  have long: "str_split CHR ''/'' ''a/b/c/d/e'' = [''a'', ''b'', ''c'', ''d'', ''e'']"
    by simp
  from parse_partial_jobkey_segments [of "''west/bozo''"] obtain p
    where p: "parse_partial_jobkey ''west/bozo'' = Inr p"
      and low: "\<forall>i<2. pk_fields p ! i = [''west'', ''bozo''] ! i"
      and high: "\<forall>i. 2 \<le> i \<and> i < 4 \<longrightarrow> pk_fields p ! i = ''*''"
    unfolding short by auto
  obtain c r e n where pe: "p = PartialJobKey c r e n"
    by (cases p)
  from low have "pk_fields p ! 0 = ''west''" "pk_fields p ! 1 = ''bozo''"
    by simp_all
  moreover from high have "pk_fields p ! 2 = ''*''" "pk_fields p ! 3 = ''*''"
    by simp_all
  ultimately have "p = PartialJobKey ''west'' ''bozo'' ''*'' ''*''"
    by (simp add: pe pk_fields_def)
  with p have "parse_partial_jobkey ''west/bozo'' = Inr (PartialJobKey ''west'' ''bozo'' ''*'' ''*'')"
    by simp
  moreover from parse_partial_jobkey_segments [of "''a/b/c/d/e''"]
  have "parse_partial_jobkey ''a/b/c/d/e'' =
          Inl (CommandError EXIT_INVALID_PARAMETER ''Job key must have no more than 4 segments'')"
    unfolding long by simp
  ultimately show ?thesis by simp
qed

section \<open>The handle cache\<close>

lemma get_api_cached: "apis self cluster = Some api \<Longrightarrow> get_api ext cluster self = (Inr api, self)"
  by (simp add: get_api_def)

lemma get_api_absent:
  "apis self cluster = None \<Longrightarrow>
   get_api ext cluster self =
     (let r = make_client ext cluster (history self);
          self' = self\<lparr>history := history self @ [MakeClient cluster r]\<rparr>
      in case r of Inl e \<Rightarrow> (Inl e, self')
         | Inr api \<Rightarrow> (Inr api, self'\<lparr>apis := (apis self)(cluster \<mapsto> api)\<rparr>))"
  by (simp add: get_api_def Let_def split: sum.splits)

lemma get_api_Inr:
  assumes "get_api ext cluster self = (Inr api, self1)"
  shows "apis self1 = (apis self)(cluster \<mapsto> api)"
    and "apis self cluster = None \<Longrightarrow> history self1 = history self @ [MakeClient cluster (Inr api)]"
    and "apis self cluster \<noteq> None \<Longrightarrow> self1 = self"
  using assms
  by (auto simp: get_api_def Let_def split: option.splits sum.splits)

lemma get_api_Inl:
  assumes "get_api ext cluster self = (Inl e, self1)"
  shows "apis self cluster = None"
    and "apis self1 = apis self"
    and "history self1 = history self @ [MakeClient cluster (Inl e)]"
  using assms
  by (auto simp: get_api_def Let_def split: option.splits sum.splits)

lemma constructions_append:
  "constructions c (xs @ ys) = constructions c xs + constructions c ys"
  by (simp add: constructions_def)

lemma get_api_keeps:
  assumes "apis self c = Some h" and "get_api ext x self = (r, self1)"
  shows "apis self1 c = Some h \<and> constructions c (history self1) = constructions c (history self)"
proof (cases "apis self x")
  case None
  with assms(1) have "x \<noteq> c" by auto
  with assms None show ?thesis
    by (auto simp: get_api_absent Let_def constructions_def split: sum.splits)
next
  case (Some a)
  with assms show ?thesis by (simp add: get_api_cached)
qed

lemma get_apis_keeps:
  "apis self c = Some h \<Longrightarrow> get_apis ext cs self = (rs, self') \<Longrightarrow>
   apis self' c = Some h \<and> constructions c (history self') = constructions c (history self)"
proof (induction cs arbitrary: self rs)
  case Nil
  then show ?case by simp
next
  case (Cons x xs)
  obtain r self1 where g: "get_api ext x self = (r, self1)" by (cases "get_api ext x self")
  obtain rs' where rest: "get_apis ext xs self1 = (rs', self')"
    using Cons.prems(2) g by (auto split: prod.splits)
  from get_api_keeps [OF Cons.prems(1) g]
  have k: "apis self1 c = Some h" and n: "constructions c (history self1) = constructions c (history self)"
    by simp_all
  from Cons.IH [OF k rest] n show ?case by simp
qed

lemma get_apis_constructions:
  "get_apis ext cs self = (rs, self') \<Longrightarrow> \<forall>r \<in> set rs. \<not> isl r \<Longrightarrow>
   constructions c (history self') =
     constructions c (history self) + (if c \<in> set cs \<and> apis self c = None then 1 else 0)"
proof (induction cs arbitrary: self rs)
  case Nil
  then show ?case by simp
next
  case (Cons x xs)
  obtain r self1 where g: "get_api ext x self = (r, self1)" by (cases "get_api ext x self")
  obtain rs' where rest: "get_apis ext xs self1 = (rs', self')" and rs: "rs = r # rs'"
    using Cons.prems(1) g by (auto split: prod.splits)
  from Cons.prems(2) rs obtain h where r: "r = Inr h" and ok: "\<forall>r \<in> set rs'. \<not> isl r"
    by (cases r) auto
  note IH = Cons.IH [OF rest ok]
  show ?case
  proof (cases "apis self x")
    case None
    from get_api_Inr [OF g [unfolded r]] None
    have a: "apis self1 = (apis self)(x \<mapsto> h)"
      and hi: "history self1 = history self @ [MakeClient x (Inr h)]" by simp_all
    show ?thesis using IH None
      by (auto simp: a hi constructions_append) (simp_all add: constructions_def)
  next
    case (Some a)
    with g have "self1 = self" by (simp add: get_api_cached)
    with IH Some show ?thesis by auto
  qed
qed


text \<open>
  C7. After a call of \<^verbatim>\<open>get_api\<close> has returned a handle for a cluster, and whatever
  further calls of \<^verbatim>\<open>get_api\<close> the session makes, a call for that cluster returns the
  identical handle and constructs nothing. In a session started from a fresh context in
  which no call fails, the client of every requested cluster is constructed exactly once.
  When the construction fails, the cluster has no entry in the cache afterwards, and the
  next call for it calls \<^verbatim>\<open>make_client\<close> again.
\<close>

theorem get_api_identity_stable:
  fixes ext :: "'h externals" and c :: string
  defines "self1 \<equiv> \<lambda>self. snd (get_api ext c self)"
  defines "self2 \<equiv> \<lambda>self cs. snd (get_apis ext cs (self1 self))"
  shows "(fst (get_api ext c self) = Inr h \<longrightarrow>
            get_api ext c (self2 self cs) = (Inr h, self2 self cs) \<and>
            constructions c (history (self2 self cs)) = constructions c (history (self1 self))) \<and>
         ((\<forall>r \<in> set (fst (get_apis ext cs AuroraCommandContext_init)). \<not> isl r) \<longrightarrow>
            constructions c (history (snd (get_apis ext cs AuroraCommandContext_init))) =
              (if c \<in> set cs then 1 else 0)) \<and>
         (fst (get_api ext c self) = Inl e \<longrightarrow>
            apis (self1 self) c = None \<and>
            history (self1 (self1 self)) =
              history (self1 self) @ [MakeClient c (make_client ext c (history (self1 self)))])"
proof (intro conjI impI)
  assume a: "fst (get_api ext c self) = Inr h"
  then have g: "get_api ext c self = (Inr h, self1 self)"
    by (simp add: self1_def prod_eq_iff)
  have k: "apis (self1 self) c = Some h"
    using get_api_Inr(1) [OF g] by simp
  have r: "get_apis ext cs (self1 self) = (fst (get_apis ext cs (self1 self)), self2 self cs)"
    by (simp add: self2_def)
  from get_apis_keeps [OF k r]
  show "get_api ext c (self2 self cs) = (Inr h, self2 self cs)"
    and "constructions c (history (self2 self cs)) = constructions c (history (self1 self))"
    by (simp_all add: get_api_cached)
next
  let ?init = "AuroraCommandContext_init :: 'h AuroraCommandContext"
  assume ok: "\<forall>r \<in> set (fst (get_apis ext cs ?init)). \<not> isl r"
  have r: "get_apis ext cs ?init = (fst (get_apis ext cs ?init), snd (get_apis ext cs ?init))"
    by simp
  from get_apis_constructions [OF r ok, of c]
  show "constructions c (history (snd (get_apis ext cs ?init))) = (if c \<in> set cs then 1 else 0)"
    by (simp add: AuroraCommandContext_init_def constructions_def)
next
  assume a: "fst (get_api ext c self) = Inl e"
  then have g: "get_api ext c self = (Inl e, self1 self)"
    by (simp add: self1_def prod_eq_iff)
  from get_api_Inl [OF g] show n: "apis (self1 self) c = None" by simp
  show "history (self1 (self1 self)) =
          history (self1 self) @ [MakeClient c (make_client ext c (history (self1 self)))]"
    using n unfolding self1_def
    by (simp add: get_api_absent Let_def split: sum.splits)
qed

text \<open>The definitions that evaluate a call on the example.\<close>

lemmas ex_defs = get_api_def AuroraCommandContext_init_def example_externals_def example_ResponseCode_def example_listing_def constructions_def Let_def

theorem get_api_identity_stable_witness:
  "fst (get_api example_externals ''A''
          (snd (get_apis example_externals [''B'', ''A'']
                  (snd (get_api example_externals ''A'' AuroraCommandContext_init))))) = Inr ''A'' \<and>
   constructions ''A'' (history (snd (get_apis example_externals [''A'', ''B'', ''A'']
                                        AuroraCommandContext_init))) = 1 \<and>
   fst (get_api example_externals ''flaky'' AuroraCommandContext_init) =
     Inl (Raised ''connection refused'') \<and>
   history (snd (get_api example_externals ''flaky''
                   (snd (get_api example_externals ''flaky'' AuroraCommandContext_init)))) =
     [MakeClient ''flaky'' (Inl (Raised ''connection refused'')),
      MakeClient ''flaky'' (Inr ''flaky'')]"
proof -
  have first: "fst (get_api example_externals ''A'' AuroraCommandContext_init) = Inr ''A''"
    by (simp add: ex_defs)
  have all_ok: "\<forall>r \<in> set (fst (get_apis example_externals [''A'', ''B'', ''A'']
                                 AuroraCommandContext_init)). \<not> isl r"
    by (simp add: ex_defs)
  have failed: "fst (get_api example_externals ''flaky'' AuroraCommandContext_init) =
                  Inl (Raised ''connection refused'')"
    by (simp add: ex_defs)
  have hist: "history (snd (get_api example_externals ''flaky'' AuroraCommandContext_init)) =
                [MakeClient ''flaky'' (Inl (Raised ''connection refused''))]"
    by (simp add: ex_defs)
  from get_api_identity_stable
         [where ext = example_externals and c = "''A''" and self = AuroraCommandContext_init
            and h = "''A''" and cs = "[''B'', ''A'']"]
       first
  have "fst (get_api example_externals ''A''
          (snd (get_apis example_externals [''B'', ''A'']
                  (snd (get_api example_externals ''A'' AuroraCommandContext_init))))) = Inr ''A''"
    by simp
  moreover
  from get_api_identity_stable
         [where ext = example_externals and c = "''A''" and cs = "[''A'', ''B'', ''A'']"]
       all_ok
  have "constructions ''A'' (history (snd (get_apis example_externals [''A'', ''B'', ''A'']
                                        AuroraCommandContext_init))) = 1"
    by simp
  moreover
  from get_api_identity_stable
         [where ext = example_externals and c = "''flaky''" and self = AuroraCommandContext_init
            and e = "Raised ''connection refused''"]
       failed
  have "history (snd (get_api example_externals ''flaky''
                   (snd (get_api example_externals ''flaky'' AuroraCommandContext_init)))) =
          history (snd (get_api example_externals ''flaky'' AuroraCommandContext_init)) @
          [MakeClient ''flaky'' (make_client example_externals ''flaky''
             (history (snd (get_api example_externals ''flaky'' AuroraCommandContext_init))))]"
    by simp
  then have "history (snd (get_api example_externals ''flaky''
                   (snd (get_api example_externals ''flaky'' AuroraCommandContext_init)))) =
     [MakeClient ''flaky'' (Inl (Raised ''connection refused'')),
      MakeClient ''flaky'' (Inr ''flaky'')]"
    unfolding hist by (simp add: example_externals_def constructions_def)
  ultimately show ?thesis using failed by simp
qed

section \<open>The response validator\<close>

text \<open>
  C2, as the code has it. For every envelope whose response code has a name in
  \<^verbatim>\<open>_VALUES_TO_NAMES\<close>, \<^verbatim>\<open>check_and_log_response\<close> emits exactly one log record, made
  of that name and the message; then, when the code is \<open>OK\<close>, it returns \<^verbatim>\<open>None\<close>
  (not the payload), and otherwise it raises \<open>CommandError\<close> with \<open>EXIT_NETWORK_ERROR\<close>
  and the message of the envelope.
\<close>

theorem check_and_log_response_outcome:
  assumes "VALUES_TO_NAMES (ResponseCode ext) (responseCode resp) = Some code_name"
  shows "check_and_log_response ext resp self =
           (if responseCode resp = OK (ResponseCode ext) then Inr None
            else Inl (CommandError EXIT_NETWORK_ERROR (message resp)),
            self\<lparr>history := history self @
                   [LogInfo (''Response from scheduler: '' @ code_name @
                             '' (message: '' @ message resp @ '')'')]\<rparr>)"
  using assms by (simp add: check_and_log_response_def Let_def)

theorem check_and_log_response_outcome_witness:
  "check_and_log_response example_externals
     \<lparr>responseCode = 2, message = ''down'', result = [JobConfiguration ''r'' ''e'' ''n'']\<rparr>
     AuroraCommandContext_init =
   (Inl (CommandError EXIT_NETWORK_ERROR ''down''),
    \<lparr>apis = Map.empty, history = [LogInfo ''Response from scheduler: ERROR (message: down)'']\<rparr>) \<and>
   check_and_log_response example_externals
     \<lparr>responseCode = 1, message = ''fine'', result = [JobConfiguration ''r'' ''e'' ''n'']\<rparr>
     AuroraCommandContext_init =
   (Inr None,
    \<lparr>apis = Map.empty, history = [LogInfo ''Response from scheduler: OK (message: fine)'']\<rparr>)"
proof -
  let ?bad = "\<lparr>responseCode = 2, message = ''down'',
                result = [JobConfiguration ''r'' ''e'' ''n'']\<rparr>"
  let ?good = "\<lparr>responseCode = 1, message = ''fine'',
                 result = [JobConfiguration ''r'' ''e'' ''n'']\<rparr>"
  have bad: "VALUES_TO_NAMES (ResponseCode example_externals) (responseCode ?bad) = Some ''ERROR''"
    by (simp add: ex_defs)
  have good: "VALUES_TO_NAMES (ResponseCode example_externals) (responseCode ?good) = Some ''OK''"
    by (simp add: ex_defs)
  show ?thesis
    unfolding check_and_log_response_outcome [OF bad] check_and_log_response_outcome [OF good]
    by (simp add: ex_defs)
qed

text \<open>
  The claim fails where it promises the payload: on an \<open>OK\<close> envelope with the payload
  \<open>[JobConfiguration r e n]\<close> the call returns \<^verbatim>\<open>None\<close>. It also fails on an envelope
  whose code has no name: the call raises \<^verbatim>\<open>KeyError\<close> and logs nothing.
\<close>

theorem check_and_log_response_payload_counterexample:
  "fst (check_and_log_response example_externals
          \<lparr>responseCode = 1, message = ''ok'', result = [JobConfiguration ''r'' ''e'' ''n'']\<rparr>
          AuroraCommandContext_init) = Inr None \<and>
   (Inr None :: exn + JobConfiguration list option) \<noteq> Inr (Some [JobConfiguration ''r'' ''e'' ''n'']) \<and>
   check_and_log_response example_externals
          \<lparr>responseCode = 7, message = ''new'', result = [JobConfiguration ''r'' ''e'' ''n'']\<rparr>
          AuroraCommandContext_init = (Inl (KeyError 7), AuroraCommandContext_init)"
  by (simp add: check_and_log_response_def ex_defs)

section \<open>The job lister\<close>

text \<open>
  C10. A call of \<^verbatim>\<open>get_job_list\<close> with the role \<^verbatim>\<open>None\<close>, the declared default, raises
  \<^verbatim>\<open>TypeError\<close> at the membership test, whatever the clusters: no handle is looked up,
  no cluster is contacted and the context is unchanged.
\<close>

theorem get_job_list_role_None:
  "get_job_list ext clusters None self = (Inl TypeError, self)"
  by (simp add: get_job_list_def)

section \<open>The resolver: fully bound keys\<close>

lemma is_fully_bound_iff:
  "is_fully_bound key \<longleftrightarrow> (\<forall>f \<in> set (pk_fields key). CHR ''*'' \<notin> set f)"
  by (simp add: is_fully_bound_def pk_fields_def)

lemma get_jobs_matching_key_bound:
  "is_fully_bound key \<Longrightarrow>
   get_jobs_matching_key ext key self =
     (Inr [AuroraJobKey (pk_cluster key) (pk_role key) (pk_env key) (pk_name key)], self)"
  by (simp add: get_jobs_matching_key_def Let_def)

text \<open>
  C4. For a pattern none of whose four fields holds a wildcard, \<^verbatim>\<open>get_jobs_matching_key\<close>
  returns the one key built from the four fields and leaves the context as it was: no
  handle was looked up or constructed and no remote call was made.
\<close>

theorem get_jobs_matching_key_literal:
  assumes "\<forall>f \<in> set (pk_fields key). \<not> has_wildcard f"
  shows "get_jobs_matching_key ext key self =
           (Inr [AuroraJobKey (pk_cluster key) (pk_role key) (pk_env key) (pk_name key)], self)"
proof -
  from assms have "is_fully_bound key"
    by (simp add: is_fully_bound_iff has_wildcard_def)
  then show ?thesis by (rule get_jobs_matching_key_bound)
qed

theorem get_jobs_matching_key_literal_witness:
  "get_jobs_matching_key example_externals (PartialJobKey ''down'' ''web'' ''prod'' ''frontend'')
     AuroraCommandContext_init =
   (Inr [AuroraJobKey ''down'' ''web'' ''prod'' ''frontend''], AuroraCommandContext_init)"
proof -
  have "\<forall>f \<in> set (pk_fields (PartialJobKey ''down'' ''web'' ''prod'' ''frontend'')).
          \<not> has_wildcard f"
    by (simp add: pk_fields_def has_wildcard_def)
  from get_jobs_matching_key_literal [OF this, of example_externals AuroraCommandContext_init]
  show ?thesis by simp
qed

section \<open>The round trip through the parser\<close>

lemma parse_partial_jobkey_path:
  assumes "CHR ''/'' \<notin> set c" "CHR ''/'' \<notin> set r" "CHR ''/'' \<notin> set e" "CHR ''/'' \<notin> set n"
  shows "parse_partial_jobkey (str_join CHR ''/'' [c, r, e, n]) = Inr (PartialJobKey c r e n)"
proof -
  have "str_split CHR ''/'' (str_join CHR ''/'' [c, r, e, n]) = [c, r, e, n]"
    using assms by (intro str_split_join) simp_all
  then show ?thesis
    by (simp add: parse_partial_jobkey_def pad_parts_4)
qed

lemma parse_partial_jobkey_no_slash:
  assumes "parse_partial_jobkey raw = Inr key"
  shows "\<forall>f \<in> set (pk_fields key). CHR ''/'' \<notin> set f"
proof -
  let ?segs = "str_split CHR ''/'' raw"
  from assms have le: "length ?segs \<le> 4"
    by (auto simp: parse_partial_jobkey_def Let_def split: if_splits)
  from parse_partial_jobkey_ok [OF le] assms
  have "pk_fields key = ?segs @ replicate (4 - length ?segs) ''*''"
    by auto
  then show ?thesis
    by (auto dest: str_split_no_sep)
qed

lemma key_path_parses:
  assumes "is_fully_bound key"
    and "\<forall>f \<in> set (pk_fields key). CHR ''/'' \<notin> set f"
  shows "\<exists>job. fst (get_jobs_matching_key ext key self) = Inr [job] \<and>
               parse_partial_jobkey (key_path job) =
                 Inr (PartialJobKey (jk_cluster job) (jk_role job) (jk_env job) (jk_name job)) \<and>
               parse_partial_jobkey (key_path job) = Inr key"
proof -
  let ?job = "AuroraJobKey (pk_cluster key) (pk_role key) (pk_env key) (pk_name key)"
  have res: "fst (get_jobs_matching_key ext key self) = Inr [?job]"
    using assms(1) by (simp add: get_jobs_matching_key_bound)
  have "parse_partial_jobkey (key_path ?job) =
          Inr (PartialJobKey (pk_cluster key) (pk_role key) (pk_env key) (pk_name key))"
    unfolding key_path_def AuroraJobKey.sel
    using assms(2) by (intro parse_partial_jobkey_path) (simp_all add: pk_fields_def)
  with res show ?thesis by (intro exI [of _ ?job]) simp
qed

text \<open>
  C9. For every fully bound pattern that \<^verbatim>\<open>parse_partial_jobkey\<close> returns, resolving it
  with \<^verbatim>\<open>get_jobs_matching_key\<close> gives one key, and parsing the four fields of that key
  joined with \<open>/\<close> gives a pattern whose four fields are the fields of the key: it is
  the pattern that was resolved.
\<close>

theorem resolve_parse_round_trip:
  assumes "parse_partial_jobkey raw = Inr key"
    and "is_fully_bound key"
  shows "\<exists>job. fst (get_jobs_matching_key ext key self) = Inr [job] \<and>
               parse_partial_jobkey (key_path job) =
                 Inr (PartialJobKey (jk_cluster job) (jk_role job) (jk_env job) (jk_name job)) \<and>
               parse_partial_jobkey (key_path job) = Inr key"
  using assms(2) parse_partial_jobkey_no_slash [OF assms(1)] by (rule key_path_parses)

theorem resolve_parse_round_trip_witness:
  "parse_partial_jobkey ''A/web/prod/frontend'' =
     Inr (PartialJobKey ''A'' ''web'' ''prod'' ''frontend'') \<and>
   is_fully_bound (PartialJobKey ''A'' ''web'' ''prod'' ''frontend'') \<and>
   fst (get_jobs_matching_key example_externals (PartialJobKey ''A'' ''web'' ''prod'' ''frontend'')
          AuroraCommandContext_init) = Inr [AuroraJobKey ''A'' ''web'' ''prod'' ''frontend''] \<and>
   key_path (AuroraJobKey ''A'' ''web'' ''prod'' ''frontend'') = ''A/web/prod/frontend'' \<and>
   parse_partial_jobkey (key_path (AuroraJobKey ''A'' ''web'' ''prod'' ''frontend'')) =
     Inr (PartialJobKey ''A'' ''web'' ''prod'' ''frontend'')"
proof -
  let ?key = "PartialJobKey ''A'' ''web'' ''prod'' ''frontend''"
  have p: "parse_partial_jobkey ''A/web/prod/frontend'' = Inr ?key"
    by (simp add: parse_partial_jobkey_def pad_parts_4)
  have b: "is_fully_bound ?key" by (simp add: is_fully_bound_def)
  from resolve_parse_round_trip [OF p b, of example_externals AuroraCommandContext_init]
  obtain job where
    j: "fst (get_jobs_matching_key example_externals ?key AuroraCommandContext_init) = Inr [job]"
    and r: "parse_partial_jobkey (key_path job) = Inr ?key"
    by blast
  have e: "fst (get_jobs_matching_key example_externals ?key AuroraCommandContext_init) =
             Inr [AuroraJobKey ''A'' ''web'' ''prod'' ''frontend'']"
    using b by (simp add: get_jobs_matching_key_bound)
  with j have "job = AuroraJobKey ''A'' ''web'' ''prod'' ''frontend''" by simp
  with r have "parse_partial_jobkey (key_path (AuroraJobKey ''A'' ''web'' ''prod'' ''frontend'')) =
                 Inr ?key" by simp
  moreover have "key_path (AuroraJobKey ''A'' ''web'' ''prod'' ''frontend'') = ''A/web/prod/frontend''"
    by (simp add: key_path_def)
  ultimately show ?thesis using p b e by simp
qed

section \<open>The loop of the job lister\<close>

lemma get_jobs_calls_append:
  "get_jobs_calls (xs @ ys) = get_jobs_calls xs @ get_jobs_calls ys"
  by (induction xs rule: get_jobs_calls.induct) simp_all

lemma get_api_history:
  "\<exists>new. history (snd (get_api ext cluster self)) = history self @ new \<and> get_jobs_calls new = []"
  by (cases "apis self cluster")
     (auto simp: get_api_cached get_api_absent Let_def split: sum.splits)

lemma get_api_apis_le: "get_api ext cluster self = (r, self1) \<Longrightarrow> apis self \<subseteq>\<^sub>m apis self1"
  by (cases "apis self cluster")
     (auto simp: get_api_cached get_api_absent Let_def map_le_def split: sum.splits)

text \<open>One turn of the loop, for each way it can go.\<close>

lemma loop_Cons_api_fails:
  "get_api ext cluster self = (Inl e, self1) \<Longrightarrow>
   get_job_list_loop ext (cluster # clusters) role acc self = (Inl e, self1)"
  by simp

lemma loop_Cons_rpc_raises:
  "get_api ext cluster self = (Inr api, self1) \<Longrightarrow>
   get_jobs ext api role (history self1) = Inl e \<Longrightarrow>
   get_job_list_loop ext (cluster # clusters) role acc self =
     (Inl e, self1\<lparr>history := history self1 @ [GetJobs api role (Inl e)]\<rparr>)"
  by (simp add: Let_def)

lemma loop_Cons_not_OK:
  "get_api ext cluster self = (Inr api, self1) \<Longrightarrow>
   get_jobs ext api role (history self1) = Inr resp \<Longrightarrow>
   responseCode resp \<noteq> OK (ResponseCode ext) \<Longrightarrow>
   get_job_list_loop ext (cluster # clusters) role acc self =
     (Inl (NameError ''EXIT_COMMAND_FAILURE''),
      self1\<lparr>history := history self1 @ [GetJobs api role (Inr resp)]\<rparr>)"
  by (simp add: Let_def)

lemma loop_Cons_OK:
  "get_api ext cluster self = (Inr api, self1) \<Longrightarrow>
   get_jobs ext api role (history self1) = Inr resp \<Longrightarrow>
   responseCode resp = OK (ResponseCode ext) \<Longrightarrow>
   get_job_list_loop ext (cluster # clusters) role acc self =
     get_job_list_loop ext clusters role
       (acc @ map (\<lambda>job. AuroraJobKey cluster (key_role job) (key_environment job) (key_name job))
                  (result resp))
       (self1\<lparr>history := history self1 @ [GetJobs api role (Inr resp)]\<rparr>)"
  by (simp add: Let_def)

lemma loop_roles:
  "\<exists>new. history (snd (get_job_list_loop ext clusters role acc self)) = history self @ new \<and>
         (\<forall>call \<in> set (get_jobs_calls new). fst (snd call) = role)"
proof (induction clusters arbitrary: acc self)
  case Nil
  show ?case by simp
next
  case (Cons cluster clusters)
  obtain r1 self1 where g: "get_api ext cluster self = (r1, self1)"
    by (cases "get_api ext cluster self")
  from get_api_history [of ext cluster self] g obtain n1
    where n1: "history self1 = history self @ n1" "get_jobs_calls n1 = []"
    by auto
  show ?case
  proof (cases r1)
    case (Inl e)
    with g n1 show ?thesis by (simp add: loop_Cons_api_fails)
  next
    case (Inr api)
    note g' = g [unfolded Inr]
    let ?r = "get_jobs ext api role (history self1)"
    let ?self2 = "self1\<lparr>history := history self1 @ [GetJobs api role ?r]\<rparr>"
    have h2: "history ?self2 = history self @ (n1 @ [GetJobs api role ?r])"
      and c2: "get_jobs_calls (n1 @ [GetJobs api role ?r]) = [(api, role, ?r)]"
      using n1 by (simp_all add: get_jobs_calls_append)
    show ?thesis
    proof (cases ?r)
      case (Inl e)
      have "get_job_list_loop ext (cluster # clusters) role acc self = (Inl e, ?self2)"
        using loop_Cons_rpc_raises [OF g' Inl] Inl by simp
      with h2 c2 show ?thesis
        by (intro exI [of _ "n1 @ [GetJobs api role ?r]"]) simp
    next
      case (Inr resp)
      show ?thesis
      proof (cases "responseCode resp = OK (ResponseCode ext)")
        case False
        have "get_job_list_loop ext (cluster # clusters) role acc self =
                (Inl (NameError ''EXIT_COMMAND_FAILURE''), ?self2)"
          using loop_Cons_not_OK [OF g' Inr False] Inr by simp
        with h2 c2 show ?thesis
          by (intro exI [of _ "n1 @ [GetJobs api role ?r]"]) simp
      next
        case True
        let ?acc = "acc @ map (\<lambda>job. AuroraJobKey cluster (key_role job) (key_environment job)
                                        (key_name job)) (result resp)"
        have step: "get_job_list_loop ext (cluster # clusters) role acc self =
                      get_job_list_loop ext clusters role ?acc ?self2"
          using loop_Cons_OK [OF g' Inr True] Inr by simp
        from Cons.IH [of ?acc ?self2] obtain new'
          where new': "history (snd (get_job_list_loop ext clusters role ?acc ?self2)) =
                         history ?self2 @ new'"
            "\<forall>call \<in> set (get_jobs_calls new'). fst (snd call) = role"
          by blast
        show ?thesis
          unfolding step
          using new' h2 c2
          by (intro exI [of _ "(n1 @ [GetJobs api role ?r]) @ new'"])
             (auto simp: get_jobs_calls_append simp del: append_assoc)
      qed
    qed
  qed
qed

lemma listed_jobs_Cons:
  "listed_jobs (cluster # clusters) (resp # resps) =
     map (\<lambda>job. AuroraJobKey cluster (key_role job) (key_environment job) (key_name job))
         (result resp) @ listed_jobs clusters resps"
  by (simp add: listed_jobs_def)

lemma listed_jobs_cluster:
  "job \<in> set (listed_jobs clusters resps) \<Longrightarrow> jk_cluster job \<in> set clusters"
  by (auto simp: listed_jobs_def dest!: set_zip_leftD)

lemma loop_Inr:
  "get_job_list_loop ext clusters role acc self = (Inr jobs, self') \<Longrightarrow>
   \<exists>handles resps new.
      length handles = length clusters \<and> length resps = length clusters \<and>
      map (apis self') clusters = map Some handles \<and>
      history self' = history self @ new \<and>
      get_jobs_calls new = map (\<lambda>(api, resp). (api, role, Inr resp)) (zip handles resps) \<and>
      (\<forall>resp \<in> set resps. responseCode resp = OK (ResponseCode ext)) \<and>
      jobs = acc @ listed_jobs clusters resps \<and>
      apis self \<subseteq>\<^sub>m apis self'"
proof (induction clusters arbitrary: acc self)
  case Nil
  then show ?case by (simp add: listed_jobs_def)
next
  case (Cons cluster clusters)
  obtain r1 self1 where g: "get_api ext cluster self = (r1, self1)"
    by (cases "get_api ext cluster self")
  from get_api_history [of ext cluster self] g obtain n1
    where n1: "history self1 = history self @ n1" "get_jobs_calls n1 = []"
    by auto
  from Cons.prems g obtain api where r1: "r1 = Inr api"
    by (cases r1) (simp_all add: loop_Cons_api_fails del: get_job_list_loop.simps)
  note g' = g [unfolded r1]
  from Cons.prems obtain resp where r: "get_jobs ext api role (history self1) = Inr resp"
    by (cases "get_jobs ext api role (history self1)") (simp_all add: loop_Cons_rpc_raises [OF g'] del: get_job_list_loop.simps)
  from Cons.prems have ok: "responseCode resp = OK (ResponseCode ext)"
    by (cases "responseCode resp = OK (ResponseCode ext)")
       (simp_all add: loop_Cons_not_OK [OF g' r] del: get_job_list_loop.simps)
  let ?self2 = "self1\<lparr>history := history self1 @ [GetJobs api role (Inr resp)]\<rparr>"
  let ?acc = "acc @ map (\<lambda>job. AuroraJobKey cluster (key_role job) (key_environment job)
                                  (key_name job)) (result resp)"
  have rest: "get_job_list_loop ext clusters role ?acc ?self2 = (Inr jobs, self')"
    using Cons.prems unfolding loop_Cons_OK [OF g' r ok] .
  from Cons.IH [OF rest] obtain handles resps new
    where IH: "length handles = length clusters" "length resps = length clusters"
      "map (apis self') clusters = map Some handles"
      "history self' = history ?self2 @ new"
      "get_jobs_calls new = map (\<lambda>(api, resp). (api, role, Inr resp)) (zip handles resps)"
      "\<forall>resp \<in> set resps. responseCode resp = OK (ResponseCode ext)"
      "jobs = ?acc @ listed_jobs clusters resps"
      "apis ?self2 \<subseteq>\<^sub>m apis self'"
    by blast
  have a1: "apis self1 cluster = Some api"
    using get_api_Inr(1) [OF g'] by simp
  have le1: "apis self \<subseteq>\<^sub>m apis self1"
    using g by (rule get_api_apis_le)
  have le2: "apis self1 \<subseteq>\<^sub>m apis self'"
    using IH(8) by simp
  have cached: "apis self' cluster = Some api"
    using a1 le2 by (auto simp: map_le_def dom_def)
  have "length (api # handles) = length (cluster # clusters)"
    and "length (resp # resps) = length (cluster # clusters)"
    and "map (apis self') (cluster # clusters) = map Some (api # handles)"
    and "history self' = history self @ (n1 @ GetJobs api role (Inr resp) # new)"
    and "get_jobs_calls (n1 @ GetJobs api role (Inr resp) # new) =
           map (\<lambda>(api, resp). (api, role, Inr resp)) (zip (api # handles) (resp # resps))"
    and "\<forall>resp \<in> set (resp # resps). responseCode resp = OK (ResponseCode ext)"
    and "jobs = acc @ listed_jobs (cluster # clusters) (resp # resps)"
    and "apis self \<subseteq>\<^sub>m apis self'"
    using IH n1 ok cached map_le_trans [OF le1 le2]
    by (simp_all add: get_jobs_calls_append listed_jobs_Cons)
  then show ?case by blast
qed

lemmas ex_list_defs = get_job_list_def get_jobs_matching_key_def is_fully_bound_def
  job_matches_def fnmatch_def cons_tok_def ex_defs

text \<open>
  Fail fast: when the call for the first of two clusters returns an \<open>OK\<close> envelope and
  the call for the second returns an envelope that is not \<open>OK\<close>, \<^verbatim>\<open>get_job_list\<close> raises.
  It returns no list, so the jobs fetched from the first cluster do not reach the caller.
\<close>

lemma get_job_list_fail_fast:
  fixes role :: string
  defines "role' \<equiv> (if CHR ''*'' \<in> set role then None else Some role)"
  assumes "get_api ext A self = (Inr apiA, selfA)"
    and "get_jobs ext apiA role' (history selfA) = Inr respA"
    and "responseCode respA = OK (ResponseCode ext)"
    and "get_api ext B (selfA\<lparr>history := history selfA @ [GetJobs apiA role' (Inr respA)]\<rparr>) =
           (Inr apiB, selfB)"
    and "get_jobs ext apiB role' (history selfB) = Inr respB"
    and "responseCode respB \<noteq> OK (ResponseCode ext)"
  shows "\<exists>e. fst (get_job_list ext [A, B] (Some role) self) = Inl e"
proof -
  have "get_job_list ext [A, B] (Some role) self = get_job_list_loop ext [A, B] role' [] self"
    by (simp add: get_job_list_def role'_def)
  also have "\<dots> = get_job_list_loop ext [B] role'
      ([] @ map (\<lambda>job. AuroraJobKey A (key_role job) (key_environment job) (key_name job))
                (result respA))
      (selfA\<lparr>history := history selfA @ [GetJobs apiA role' (Inr respA)]\<rparr>)"
    using assms(2-4) by (rule loop_Cons_OK)
  also have "\<dots> = (Inl (NameError ''EXIT_COMMAND_FAILURE''),
                    selfB\<lparr>history := history selfB @ [GetJobs apiB role' (Inr respB)]\<rparr>)"
    using assms(5-7) by (rule loop_Cons_not_OK)
  finally show ?thesis by simp
qed

text \<open>
  C1 says that for clusters \<open>[A, B]\<close>, where the call for \<open>A\<close> returns an \<open>OK\<close> envelope
  and the call for \<open>B\<close> one that is not \<open>OK\<close>, \<^verbatim>\<open>get_job_list\<close> raises the classified error
  that carries the message of the envelope of \<open>B\<close>, and does not return the jobs of \<open>A\<close>.
  The code raises, but not that error. With the clusters \<open>A\<close> (whose scheduler answers
  \<open>OK\<close>) and \<open>down\<close> (whose scheduler answers with code 2 and the message
  \<open>scheduler unavailable\<close>), the \<^verbatim>\<open>raise\<close> statement of \<^verbatim>\<open>get_job_list\<close> evaluates the name
  \<^verbatim>\<open>EXIT_COMMAND_FAILURE\<close>, which the module never imports, and the call ends in
  \<^verbatim>\<open>NameError\<close>: no \<open>CommandError\<close> is raised and the message is lost. The sibling
  raise of \<^verbatim>\<open>check_and_log_response\<close>, on the same envelope, is the \<open>CommandError\<close> with
  the message.
\<close>

theorem get_job_list_not_OK_raises_NameError:
  "get_jobs_calls (history (snd (get_job_list example_externals [''A'', ''down''] (Some ''*'')
                                   AuroraCommandContext_init))) =
     [(''A'', None, Inr \<lparr>responseCode = 1, message = ''ok'',
                           result = [JobConfiguration ''web'' ''prod'' ''frontend'',
                                     JobConfiguration ''web'' ''staging'' ''frontend'']\<rparr>),
      (''down'', None, Inr \<lparr>responseCode = 2, message = ''scheduler unavailable'',
                              result = []\<rparr>)] \<and>
   OK (ResponseCode example_externals) = 1 \<and>
   fst (get_job_list example_externals [''A'', ''down''] (Some ''*'') AuroraCommandContext_init) =
     Inl (NameError ''EXIT_COMMAND_FAILURE'') \<and>
   fst (check_and_log_response example_externals
          \<lparr>responseCode = 2, message = ''scheduler unavailable'',
            result = [] :: JobConfiguration list\<rparr>
          (AuroraCommandContext_init :: string AuroraCommandContext)) =
     Inl (CommandError EXIT_NETWORK_ERROR ''scheduler unavailable'')"
  by (simp add: check_and_log_response_def ex_list_defs)

text \<open>
  C6, as the code has it. Every call of \<^verbatim>\<open>get_jobs\<close> that \<^verbatim>\<open>get_job_list\<close> makes passes
  the role argument when it does not contain the character \<open>*\<close>, and passes \<^verbatim>\<open>None\<close> when
  it contains \<open>*\<close> anywhere.
\<close>

theorem get_job_list_role_passed:
  "\<exists>new. history (snd (get_job_list ext clusters (Some role) self)) = history self @ new \<and>
         (\<forall>call \<in> set (get_jobs_calls new).
            fst (snd call) = (if CHR ''*'' \<in> set role then None else Some role))"
  unfolding get_job_list_def option.case by (rule loop_roles)

theorem get_job_list_role_passed_witness:
  "map (\<lambda>call. fst (snd call))
     (get_jobs_calls (history (snd (get_job_list example_externals [''A'', ''B''] (Some ''web'')
                                      AuroraCommandContext_init)))) = [Some ''web'', Some ''web''] \<and>
   map (\<lambda>call. fst (snd call))
     (get_jobs_calls (history (snd (get_job_list example_externals [''A'', ''B''] (Some ''*'')
                                      AuroraCommandContext_init)))) = [None, None]"
  using get_job_list_role_passed [of example_externals "[''A'', ''B'']" "''web''"
                                     AuroraCommandContext_init]
  by (simp add: ex_list_defs)

text \<open>
  The claim fails for a role that contains \<open>*\<close> without being the token \<open>*\<close>: the role
  \<open>w*\<close> reaches the scheduler as \<^verbatim>\<open>None\<close>.
\<close>

theorem get_job_list_role_passed_counterexample:
  "''w*'' \<noteq> ''*'' \<and>
   map (\<lambda>call. fst (snd call))
     (get_jobs_calls (history (snd (get_job_list example_externals [''A''] (Some ''w*'')
                                      AuroraCommandContext_init)))) = [None]"
  by (simp add: ex_list_defs)

section \<open>Matching\<close>

lemma match_Star_iff: "match (Star # ts) s \<longleftrightarrow> (\<exists>s1 s2. s = s1 @ s2 \<and> match ts s2)"
proof (induction s)
  case Nil
  show ?case by simp
next
  case (Cons x s)
  show ?case
  proof
    assume "match (Star # ts) (x # s)"
    then consider "match ts (x # s)" | "match (Star # ts) s" by auto
    then show "\<exists>s1 s2. x # s = s1 @ s2 \<and> match ts s2"
    proof cases
      case 1
      then show ?thesis by (intro exI [of _ "[]"] exI [of _ "x # s"]) simp
    next
      case 2
      with Cons.IH obtain s1 s2 where "s = s1 @ s2" "match ts s2" by blast
      then show ?thesis by (intro exI [of _ "x # s1"] exI [of _ s2]) simp
    qed
  next
    assume "\<exists>s1 s2. x # s = s1 @ s2 \<and> match ts s2"
    then obtain s1 s2 where eq: "x # s = s1 @ s2" and m: "match ts s2" by blast
    show "match (Star # ts) (x # s)"
    proof (cases s1)
      case Nil
      with eq m have "match ts (x # s)" by simp
      then show ?thesis by simp
    next
      case (Cons y s1')
      with eq have "s = s1' @ s2" by simp
      with m Cons.IH show ?thesis by auto
    qed
  qed
qed

lemma translate_no_bracket:
  "CHR ''['' \<notin> set pat \<Longrightarrow> translate pat = Inr (map tok_of pat)"
  by (induction pat) (auto simp: cons_tok_def tok_of_def)


lemma tok_of_simps:
  "tok_of CHR ''*'' = Star"
  "tok_of CHR ''?'' = AnyChar"
  "c \<noteq> CHR ''*'' \<Longrightarrow> c \<noteq> CHR ''?'' \<Longrightarrow> tok_of c = Lit c"
  by (simp_all add: tok_of_def)

lemma glob_Star_iff: "glob (CHR ''*'' # pat) s \<longleftrightarrow> (\<exists>s1 s2. s = s1 @ s2 \<and> glob pat s2)"
proof
  assume "glob (CHR ''*'' # pat) s"
  then show "\<exists>s1 s2. s = s1 @ s2 \<and> glob pat s2"
    by (cases rule: glob.cases) auto
next
  assume "\<exists>s1 s2. s = s1 @ s2 \<and> glob pat s2"
  then show "glob (CHR ''*'' # pat) s" by (auto intro: glob_Star)
qed

lemma glob_Any_iff: "glob (CHR ''?'' # pat) s \<longleftrightarrow> (\<exists>x s'. s = x # s' \<and> glob pat s')"
proof
  assume "glob (CHR ''?'' # pat) s"
  then show "\<exists>x s'. s = x # s' \<and> glob pat s'"
    by (cases rule: glob.cases) auto
next
  assume "\<exists>x s'. s = x # s' \<and> glob pat s'"
  then show "glob (CHR ''?'' # pat) s" by (auto intro: glob_Any)
qed

lemma glob_Lit_iff:
  assumes "c \<noteq> CHR ''*''" "c \<noteq> CHR ''?''"
  shows "glob (c # pat) s \<longleftrightarrow> (\<exists>s'. s = c # s' \<and> glob pat s')"
proof
  assume "glob (c # pat) s"
  then show "\<exists>s'. s = c # s' \<and> glob pat s'"
    using assms by (cases rule: glob.cases) auto
next
  assume "\<exists>s'. s = c # s' \<and> glob pat s'"
  then show "glob (c # pat) s" using assms by (auto intro: glob_Lit)
qed

lemma glob_Nil_iff: "glob [] s \<longleftrightarrow> s = []"
proof
  assume "glob [] s"
  then show "s = []" by (cases rule: glob.cases) auto
next
  assume "s = []"
  then show "glob [] s" by (simp add: glob_Nil)
qed

lemma match_glob: "match (map tok_of pat) s \<longleftrightarrow> glob pat s"
proof (induction pat arbitrary: s)
  case Nil
  show ?case by (simp add: glob_Nil_iff)
next
  case (Cons c pat)
  consider "c = CHR ''*''" | "c = CHR ''?''" | "c \<noteq> CHR ''*''" "c \<noteq> CHR ''?''" by blast
  then show ?case
  proof cases
    case 1
    show ?thesis
      unfolding 1 by (simp add: tok_of_simps match_Star_iff glob_Star_iff Cons.IH)
  next
    case 2
    show ?thesis
      unfolding 2 by (cases s) (simp_all add: tok_of_simps glob_Any_iff Cons.IH)
  next
    case 3
    then show ?thesis
      by (cases s) (auto simp: tok_of_simps glob_Lit_iff Cons.IH)
  qed
qed

text \<open>
  On a pattern without \<open>[\<close>, \<^verbatim>\<open>fnmatch\<close> never raises and decides shell-glob matching.
\<close>

lemma fnmatch_glob: "CHR ''['' \<notin> set pat \<Longrightarrow> fnmatch name pat = Inr (glob pat name)"
  by (simp add: fnmatch_def translate_no_bracket match_glob)

lemma glob_star: "glob ''*'' s"
  using glob_Star [OF glob_Nil, of s] by simp

lemma glob_literal:
  "CHR ''*'' \<notin> set pat \<Longrightarrow> CHR ''?'' \<notin> set pat \<Longrightarrow> glob pat s \<longleftrightarrow> s = pat"
proof (induction pat arbitrary: s)
  case Nil
  show ?case by (simp add: glob_Nil_iff)
next
  case (Cons c pat)
  from Cons.prems have c: "c \<noteq> CHR ''*''" "c \<noteq> CHR ''?''" by auto
  from Cons.prems have IH: "glob pat s' \<longleftrightarrow> s' = pat" for s'
    by (intro Cons.IH) auto
  show ?case unfolding glob_Lit_iff [OF c] IH by blast
qed

section \<open>The resolver: keys with a wildcard\<close>

lemma job_matches_True_iff:
  "job_matches job role env name = Inr True \<longleftrightarrow>
     fnmatch (jk_role job) role = Inr True \<and> fnmatch (jk_env job) env = Inr True \<and>
     fnmatch (jk_name job) name = Inr True"
  by (auto simp: job_matches_def split: sum.splits)

lemma filter_job_list_Inr:
  "filter_job_list jobs role env name = Inr kept \<Longrightarrow>
   kept = filter (\<lambda>job. job_matches job role env name = Inr True) jobs"
  by (induction jobs arbitrary: kept) (auto split: sum.splits if_splits)

lemma get_jobs_matching_key_listing:
  assumes nb: "\<not> is_fully_bound key"
    and res: "get_jobs_matching_key ext key self = (Inr jobs, self')"
  shows "\<exists>handles resps new.
           length handles = length (if pk_cluster key = ''*'' then CLUSTERS ext else [pk_cluster key]) \<and>
           length resps = length (if pk_cluster key = ''*'' then CLUSTERS ext else [pk_cluster key]) \<and>
           map (apis self') (if pk_cluster key = ''*'' then CLUSTERS ext else [pk_cluster key]) =
             map Some handles \<and>
           history self' = history self @ new \<and>
           get_jobs_calls new =
             map (\<lambda>(api, resp).
                    (api, if CHR ''*'' \<in> set (pk_role key) then None else Some (pk_role key),
                     Inr resp))
                 (zip handles resps) \<and>
           (\<forall>resp \<in> set resps. responseCode resp = OK (ResponseCode ext)) \<and>
           jobs = filter (\<lambda>job. fnmatch (jk_role job) (pk_role key) = Inr True \<and>
                                fnmatch (jk_env job) (pk_env key) = Inr True \<and>
                                fnmatch (jk_name job) (pk_name key) = Inr True)
                    (listed_jobs (if pk_cluster key = ''*'' then CLUSTERS ext else [pk_cluster key])
                       resps)"
proof -
  let ?clusters = "if pk_cluster key = ''*'' then CLUSTERS ext else [pk_cluster key]"
  let ?role = "if CHR ''*'' \<in> set (pk_role key) then None else Some (pk_role key)"
  obtain r self1 where l: "get_job_list ext ?clusters (Some (pk_role key)) self = (r, self1)"
    by (cases "get_job_list ext ?clusters (Some (pk_role key)) self")
  from res nb l obtain listed where r: "r = Inr listed" and s: "self1 = self'"
    and f: "filter_job_list listed (pk_role key) (pk_env key) (pk_name key) = Inr jobs"
    by (cases r) (auto simp: get_jobs_matching_key_def Let_def)
  from l r s have "get_job_list_loop ext ?clusters ?role [] self = (Inr listed, self')"
    by (simp add: get_job_list_def)
  from loop_Inr [OF this] obtain handles resps new
    where L: "length handles = length ?clusters" "length resps = length ?clusters"
      "map (apis self') ?clusters = map Some handles"
      "history self' = history self @ new"
      "get_jobs_calls new = map (\<lambda>(api, resp). (api, ?role, Inr resp)) (zip handles resps)"
      "\<forall>resp \<in> set resps. responseCode resp = OK (ResponseCode ext)"
      "listed = [] @ listed_jobs ?clusters resps"
    by blast
  from filter_job_list_Inr [OF f] L(7)
  have "jobs = filter (\<lambda>job. fnmatch (jk_role job) (pk_role key) = Inr True \<and>
                              fnmatch (jk_env job) (pk_env key) = Inr True \<and>
                              fnmatch (jk_name job) (pk_name key) = Inr True)
                  (listed_jobs ?clusters resps)"
    by (simp add: job_matches_True_iff)
  with L(1-6) show ?thesis by blast
qed

text \<open>
  C3, as the code has it. For a pattern with the character \<open>*\<close> in at least one of its
  four fields, whenever \<^verbatim>\<open>get_jobs_matching_key\<close> returns, the clusters queried are the one
  named by the cluster field, or all of \<^verbatim>\<open>CLUSTERS\<close> when that field is the token \<open>*\<close>;
  each was asked once, in order, through its cached handle, and answered \<open>OK\<close>; and the
  keys returned are, in listing order, exactly the jobs of those listings, each tagged
  with its cluster, whose role, environment and name \<^verbatim>\<open>fnmatch\<close> the role, environment and
  name fields of the pattern.
\<close>

theorem get_jobs_matching_key_wildcard:
  fixes ext :: "'h externals" and key :: PartialJobKey
  defines "clusters \<equiv> (if pk_cluster key = ''*'' then CLUSTERS ext else [pk_cluster key])"
  assumes "\<exists>f \<in> set (pk_fields key). CHR ''*'' \<in> set f"
    and "get_jobs_matching_key ext key self = (Inr jobs, self')"
  shows "\<exists>handles resps new.
           length handles = length clusters \<and> length resps = length clusters \<and>
           map (apis self') clusters = map Some handles \<and>
           history self' = history self @ new \<and>
           get_jobs_calls new =
             map (\<lambda>(api, resp).
                    (api, if CHR ''*'' \<in> set (pk_role key) then None else Some (pk_role key),
                     Inr resp))
                 (zip handles resps) \<and>
           (\<forall>resp \<in> set resps. responseCode resp = OK (ResponseCode ext)) \<and>
           jobs = filter (\<lambda>job. fnmatch (jk_role job) (pk_role key) = Inr True \<and>
                                fnmatch (jk_env job) (pk_env key) = Inr True \<and>
                                fnmatch (jk_name job) (pk_name key) = Inr True)
                    (listed_jobs clusters resps)"
proof -
  from assms(2) have "\<not> is_fully_bound key"
    by (simp add: is_fully_bound_iff)
  from get_jobs_matching_key_listing [OF this assms(3)]
  show ?thesis unfolding clusters_def .
qed

theorem get_jobs_matching_key_wildcard_witness:
  "(\<exists>f \<in> set (pk_fields (PartialJobKey ''*'' ''*'' ''prod'' ''*'')). CHR ''*'' \<in> set f) \<and>
   fst (get_jobs_matching_key example_externals (PartialJobKey ''*'' ''*'' ''prod'' ''*'')
          AuroraCommandContext_init) =
     Inr [AuroraJobKey ''A'' ''web'' ''prod'' ''frontend'',
          AuroraJobKey ''B'' ''db'' ''prod'' ''store''] \<and>
   (\<exists>resps. length resps = 2 \<and>
      [AuroraJobKey ''A'' ''web'' ''prod'' ''frontend'', AuroraJobKey ''B'' ''db'' ''prod'' ''store''] =
        filter (\<lambda>job. fnmatch (jk_role job) ''*'' = Inr True \<and>
                       fnmatch (jk_env job) ''prod'' = Inr True \<and>
                       fnmatch (jk_name job) ''*'' = Inr True)
               (listed_jobs [''A'', ''B''] resps))"
proof -
  let ?key = "PartialJobKey ''*'' ''*'' ''prod'' ''*''"
  let ?jobs = "[AuroraJobKey ''A'' ''web'' ''prod'' ''frontend'',
                AuroraJobKey ''B'' ''db'' ''prod'' ''store'']"
  let ?init = "AuroraCommandContext_init :: string AuroraCommandContext"
  have star: "\<exists>f \<in> set (pk_fields ?key). CHR ''*'' \<in> set f"
    by (simp add: pk_fields_def)
  have res: "fst (get_jobs_matching_key example_externals ?key ?init) = Inr ?jobs"
    by (simp add: ex_list_defs)
  then have run: "get_jobs_matching_key example_externals ?key ?init =
                    (Inr ?jobs, snd (get_jobs_matching_key example_externals ?key ?init))"
    by (simp add: prod_eq_iff)
  from get_jobs_matching_key_wildcard [OF star run]
  obtain resps where "length resps = length (CLUSTERS example_externals)"
    and "?jobs = filter (\<lambda>job. fnmatch (jk_role job) ''*'' = Inr True \<and>
                               fnmatch (jk_env job) ''prod'' = Inr True \<and>
                               fnmatch (jk_name job) ''*'' = Inr True)
                   (listed_jobs (CLUSTERS example_externals) resps)"
    by auto
  then have "length resps = 2 \<and>
      ?jobs = filter (\<lambda>job. fnmatch (jk_role job) ''*'' = Inr True \<and>
                            fnmatch (jk_env job) ''prod'' = Inr True \<and>
                            fnmatch (jk_name job) ''*'' = Inr True)
                (listed_jobs [''A'', ''B''] resps)"
    by (simp add: example_externals_def)
  then have "\<exists>resps. length resps = 2 \<and>
      ?jobs = filter (\<lambda>job. fnmatch (jk_role job) ''*'' = Inr True \<and>
                            fnmatch (jk_env job) ''prod'' = Inr True \<and>
                            fnmatch (jk_name job) ''*'' = Inr True)
                (listed_jobs [''A'', ''B''] resps)"
    by (rule exI [of _ resps])
  with star res show ?thesis by blast
qed

text \<open>
  The claim fails for a pattern whose only wildcard is \<open>?\<close>. The pattern
  \<open>A/we?/prod/frontend\<close> has a wildcard in its role field, and the job
  \<open>web/prod/frontend\<close> of the listing of \<open>A\<close> matches it; yet the call contacts no cluster
  and returns the key with the literal role \<open>we?\<close>, which is no job of the listing.
\<close>

theorem get_jobs_matching_key_question_mark_counterexample:
  "has_wildcard (pk_role (PartialJobKey ''A'' ''we?'' ''prod'' ''frontend'')) \<and>
   get_jobs_matching_key example_externals (PartialJobKey ''A'' ''we?'' ''prod'' ''frontend'')
     AuroraCommandContext_init =
     (Inr [AuroraJobKey ''A'' ''we?'' ''prod'' ''frontend''], AuroraCommandContext_init) \<and>
   filter (\<lambda>job. fnmatch (jk_role job) ''we?'' = Inr True \<and>
                  fnmatch (jk_env job) ''prod'' = Inr True \<and>
                  fnmatch (jk_name job) ''frontend'' = Inr True)
          (listed_jobs [''A''] [\<lparr>responseCode = 1, message = ''ok'',
                                   result = example_listing ''A''\<rparr>]) =
     [AuroraJobKey ''A'' ''web'' ''prod'' ''frontend''] \<and>
   [AuroraJobKey ''A'' ''we?'' ''prod'' ''frontend''] \<noteq>
     [AuroraJobKey ''A'' ''web'' ''prod'' ''frontend'']"
  by (simp add: has_wildcard_def listed_jobs_def ex_list_defs)

end
